theory Spec2Isabelle
  imports Main "HOL-Library.Sublist"
begin

section \<open>authkeys: directory lookup of SSH keys and group rosters\<close>

text \<open>
  A shallow embedding of \<^verbatim>\<open>src/authkeys.go\<close>, function \<^verbatim>\<open>main\<close> from the flag
  handling (line 77) to its end. Go strings are byte sequences and are modelled as
  \<^typ>\<open>string\<close>; Go's \<^verbatim>\<open>int\<close> positions are \<^typ>\<open>int\<close>, so that the
  \<^verbatim>\<open>-1\<close> of a failed search for a substring is a value of the model. Everything
  outside the process (the network, the directory, the file system, the JSON encoder)
  is a parameter of type \<open>world\<close>.
\<close>

subsection \<open>Data\<close>

record AuthkeysConfig =
  BaseDN :: string
  GroupObject :: string
  DialTimeout :: int
  KeyAttribute :: string
  LDAPServer :: string
  LDAPPort :: int
  RootCAFile :: string
  UserAttribute :: string
  UserPostfix :: string
  BindDN :: string
  BindPW :: string

record User =
  Uid :: string
  UidNumber :: string
  GidNumber :: string
  MemberOf :: "string list"
  HomeDirectory :: string
  Shell :: string

text \<open>
  The command line after \<^verbatim>\<open>flag.Parse\<close>: the values of the two flags and
  \<^verbatim>\<open>os.Args\<close> (program name first).
\<close>

record CommandLine =
  groupPtr :: string
  minPtr :: string
  Args :: "string list"

text \<open>
  A directory entry is the list of its attributes, each a name with its values, in the
  order the directory sent them. A search request is what \<^verbatim>\<open>ldap.NewSearchRequest\<close>
  is given; scope (whole subtree), alias dereferencing (never), size limit 0, time
  limit 0 and types-only false are the same at all three call sites and are left out.
\<close>

type_synonym Entry = "(string \<times> string list) list"

record SearchRequest =
  reqBaseDN :: string
  reqFilter :: string
  reqAttributes :: "string list"

text \<open>
  The ways the program stops early. \<^verbatim>\<open>log.Fatal\<close> and \<^verbatim>\<open>log.Fatalf\<close> write a
  message to standard error and call \<^verbatim>\<open>os.Exit(1)\<close>; one constructor per call site,
  carrying the text of the underlying error where the message has one.
  \<open>Panic\<close> is Go's run-time panic of an index or a slice expression out of range.
\<close>

datatype fatal =
    NotEnoughParameters    \<comment> \<open>line 85\<close>
  | DialError string       \<comment> \<open>line 109\<close>
  | RootCAReadError string \<comment> \<open>line 126: Unable to read RootCAFile\<close>
  | RootCAAppendError      \<comment> \<open>line 129: Unable to append to CertPool from RootCAFile\<close>
  | StartTLSError string   \<comment> \<open>line 137: Unable to start TLS connection\<close>
  | BindError string       \<comment> \<open>line 144: Unable to bind\<close>
  | SearchError string     \<comment> \<open>line 170\<close>
  | NoEntries              \<comment> \<open>line 174: No entries returned from LDAP\<close>
  | TooManyEntries         \<comment> \<open>line 176: Too many entries returned from LDAP\<close>
  | UserSearchError string \<comment> \<open>line 196\<close>
  | MarshalError string    \<comment> \<open>line 237\<close>

datatype failure = Fatal fatal | Panic

text \<open>
  The environment. An operation that can fail returns the error's text.
  The directory answers a search by the number of searches the connection has
  carried before it and by the request, so that the same request may be answered
  differently at different times.
\<close>

record world =
  dial :: "string \<Rightarrow> int \<Rightarrow> int \<Rightarrow> string option"
  readFile :: "string \<Rightarrow> string + string"
  appendCertsFromPEM :: "string \<Rightarrow> bool"
  startTLS :: "string \<Rightarrow> string option \<Rightarrow> string option"
  bind :: "string \<Rightarrow> string \<Rightarrow> string option"
  directory :: "nat \<Rightarrow> SearchRequest \<Rightarrow> string + Entry list"
  marshal :: "User list \<Rightarrow> string + string"

text \<open>
  The state of the process that the claims speak about: the searches sent over the
  connection \<^verbatim>\<open>l\<close>, whether the connection exists, whether \<^verbatim>\<open>l.Close\<close> is
  registered with \<^verbatim>\<open>defer\<close>, whether \<^verbatim>\<open>l.Close\<close> has been called, and what
  was printed to standard output (one element per \<^verbatim>\<open>fmt.Printf\<close>, without the
  newline that ends it).
\<close>

record proc =
  requests :: "SearchRequest list"
  established :: bool
  deferred :: bool
  closed :: bool
  stdout :: "string list"

definition proc0 :: proc where
  "proc0 = \<lparr>requests = [], established = False, deferred = False, closed = False, stdout = []\<rparr>"

subsection \<open>Library functions the program calls\<close>

text \<open>
  \<^verbatim>\<open>strings.Index(s, substr)\<close>: the position of the first instance of
  \<^verbatim>\<open>substr\<close> in \<^verbatim>\<open>s\<close>, or \<^verbatim>\<open>-1\<close> when there is none.
\<close>

fun Index :: "string \<Rightarrow> string \<Rightarrow> int" where
  "Index [] substr = (if substr = [] then 0 else - 1)"
| "Index (c # s) substr =
     (if prefix substr (c # s) then 0
      else (let i = Index s substr in if i < 0 then - 1 else i + 1))"

text \<open>
  The slice expression \<^verbatim>\<open>s[lo:hi]\<close> on a string: it panics unless
  \<^verbatim>\<open>0 <= lo <= hi <= len(s)\<close>; \<open>None\<close> is the panic.
\<close>

definition slice :: "string \<Rightarrow> int \<Rightarrow> int \<Rightarrow> string option" where
  "slice s lo hi =
     (if 0 \<le> lo \<and> lo \<le> hi \<and> hi \<le> int (length s)
      then Some (take (nat (hi - lo)) (drop (nat lo) s))
      else None)"

text \<open>
  \<^verbatim>\<open>strings.Contains(s, "@")\<close> and \<^verbatim>\<open>strings.Split(s, "@")\<close> for a separator
  of one byte: the pieces of \<^verbatim>\<open>s\<close> between the separators, in order; always at
  least one piece.
\<close>

definition Contains :: "string \<Rightarrow> char \<Rightarrow> bool" where
  "Contains s c = (c \<in> set s)"

fun Split :: "string \<Rightarrow> char \<Rightarrow> string list" where
  "Split [] sep = [[]]"
| "Split (c # s) sep =
     (if c = sep then [] # Split s sep
      else (case Split s sep of
              [] \<Rightarrow> [[c]]
            | p # ps \<Rightarrow> (c # p) # ps))"

text \<open>
  Modelled from the spec: the two accessors of a directory entry, which belong to the
  LDAP client library and are not under src/. An entry maps an attribute name to an
  ordered sequence of string values; \<open>GetAttributeValues\<close> is that sequence, empty
  when the entry has no attribute of the name, and \<open>GetAttributeValue\<close> is its first
  value, the empty string when there is none.
\<close>

definition GetAttributeValues :: "Entry \<Rightarrow> string \<Rightarrow> string list" where
  "GetAttributeValues entry attribute =
     (case map_of entry attribute of None \<Rightarrow> [] | Some values \<Rightarrow> values)"

definition GetAttributeValue :: "Entry \<Rightarrow> string \<Rightarrow> string" where
  "GetAttributeValue entry attribute =
     (case GetAttributeValues entry attribute of [] \<Rightarrow> [] | v # _ \<Rightarrow> v)"

text \<open>\<^verbatim>\<open>l.Search\<close>: the request goes over the connection and the directory answers.\<close>

definition Search :: "world \<Rightarrow> SearchRequest \<Rightarrow> proc \<Rightarrow> (string + Entry list) \<times> proc" where
  "Search w req st =
     (directory w (length (requests st)) req, st\<lparr>requests := requests st @ [req]\<rparr>)"

subsection \<open>main, lines 80 to 95: the mode and the attributes to retrieve\<close>

text \<open>
  The result is \<^verbatim>\<open>listUsers\<close> and \<^verbatim>\<open>username\<close>. \<^verbatim>\<open>os.Args[1]\<close> is read only
  where \<^verbatim>\<open>len(os.Args)\<close> is 2.
\<close>

definition parseMode :: "AuthkeysConfig \<Rightarrow> CommandLine \<Rightarrow> failure + bool \<times> string" where
  "parseMode config cl =
     (if groupPtr cl \<noteq> [] then Inr (True, [])
      else (case Args cl of
              [_, a] \<Rightarrow> Inr (False, a @ UserPostfix config)
            | _ \<Rightarrow> Inl (Fatal NotEnoughParameters)))"

definition attributes :: "CommandLine \<Rightarrow> string list" where
  "attributes cl =
     (if minPtr cl \<noteq> []
      then [''uid'', ''uidNumber'', ''gidNumber'', ''homeDirectory'', ''loginShell'']
      else [''uid'', ''uidNumber'', ''gidNumber'', ''memberOf'', ''homeDirectory'',
            ''loginShell''])"

subsection \<open>main, lines 99 to 146: the connection\<close>

text \<open>
  Lines 99 to 104: the timeout is a \<^verbatim>\<open>time.Duration\<close>, a signed 64-bit count of
  nanoseconds; the multiplication by \<^verbatim>\<open>time.Second\<close> wraps around.
\<close>

definition int64 :: "int \<Rightarrow> int" where
  "int64 n = (n + 2 ^ 63) mod 2 ^ 64 - 2 ^ 63"

definition conntimeout :: "AuthkeysConfig \<Rightarrow> int" where
  "conntimeout config =
     (if DialTimeout config \<noteq> 0 then int64 (int64 (DialTimeout config) * 1000000000)
      else int64 (int64 5 * 1000000000))"

text \<open>Lines 122 to 132: the trust roots handed to the TLS configuration, if any.\<close>

definition rootCAs :: "world \<Rightarrow> AuthkeysConfig \<Rightarrow> failure + string option" where
  "rootCAs w config =
     (if RootCAFile config \<noteq> [] then
        (case readFile w (RootCAFile config) of
           Inl err \<Rightarrow> Inl (Fatal (RootCAReadError err))
         | Inr pem \<Rightarrow>
             if \<not> appendCertsFromPEM w pem then Inl (Fatal RootCAAppendError)
             else Inr (Some pem))
      else Inr None)"

definition connect :: "world \<Rightarrow> AuthkeysConfig \<Rightarrow> proc \<Rightarrow> (failure + unit) \<times> proc" where
  "connect w config st =
     (case dial w (LDAPServer config) (LDAPPort config) (conntimeout config) of
        Some err \<Rightarrow> (Inl (Fatal (DialError err)), st)
      | None \<Rightarrow>
          (let st1 = st\<lparr>established := True, deferred := True\<rparr> in
           case rootCAs w config of
             Inl f \<Rightarrow> (Inl f, st1)
           | Inr roots \<Rightarrow>
               (case startTLS w (LDAPServer config) roots of
                  Some err \<Rightarrow> (Inl (Fatal (StartTLSError err)), st1)
                | None \<Rightarrow>
                    if BindDN config \<noteq> [] \<and> BindPW config \<noteq> [] then
                      (case bind w (BindDN config) (BindPW config) of
                         Some err \<Rightarrow> (Inl (Fatal (BindError err)), st1)
                       | None \<Rightarrow> (Inr (), st1))
                    else (Inr (), st1))))"

subsection \<open>main, lines 148 to 166: the search request\<close>

definition searchRequest ::
  "AuthkeysConfig \<Rightarrow> CommandLine \<Rightarrow> bool \<Rightarrow> string \<Rightarrow> SearchRequest" where
  "searchRequest config cl listUsers username =
     (if listUsers then
        \<lparr>reqBaseDN = BaseDN config,
         reqFilter = ''(&(objectClass=inetOrgPerson)(memberOf=cn='' @ groupPtr cl @ '',ou=''
                       @ GroupObject config @ '','' @ BaseDN config @ ''))'',
         reqAttributes = attributes cl\<rparr>
      else
        \<lparr>reqBaseDN = BaseDN config,
         reqFilter = ''('' @ UserAttribute config @ ''='' @ username @ '')'',
         reqAttributes = [KeyAttribute config]\<rparr>)"

subsection \<open>main, lines 183 to 234: one entry of a group listing\<close>

text \<open>Lines 187 to 193: the request of the search for one member's groups.\<close>

definition userSearchRequest :: "AuthkeysConfig \<Rightarrow> string \<Rightarrow> SearchRequest" where
  "userSearchRequest config v =
     \<lparr>reqBaseDN = BaseDN config,
      reqFilter = ''('' @ UserAttribute config @ ''='' @ v @ '')'',
      reqAttributes = [''memberOf'']\<rparr>"

text \<open>
  Lines 184 to 201: \<^verbatim>\<open>rawMemberOf\<close>. It starts as the entry's own values of
  \<^verbatim>\<open>memberOf\<close>; with the flag \<^verbatim>\<open>min\<close> set, a search is made and each entry of its
  result, in turn, overwrites \<^verbatim>\<open>rawMemberOf\<close>. Element 0 of the entry's values of
  the configured attribute is read without a check of the length.
\<close>

definition rawMemberOf ::
  "world \<Rightarrow> AuthkeysConfig \<Rightarrow> CommandLine \<Rightarrow> Entry \<Rightarrow> proc \<Rightarrow> (failure + string list) \<times> proc" where
  "rawMemberOf w config cl entry st =
     (let raw = GetAttributeValues entry ''memberOf'' in
      if minPtr cl \<noteq> [] then
        (case GetAttributeValues entry (UserAttribute config) of
           [] \<Rightarrow> (Inl Panic, st)
         | v # _ \<Rightarrow>
             (case Search w (userSearchRequest config v) st of
                (Inl err, st') \<Rightarrow> (Inl (Fatal (UserSearchError err)), st')
              | (Inr userEntries, st') \<Rightarrow>
                  (Inr (fold (\<lambda>userEntry _. GetAttributeValues userEntry ''memberOf'')
                          userEntries raw), st')))
      else (Inr raw, st))"

text \<open>
  Lines 206 to 208, for one raw value: the bytes from \<^verbatim>\<open>cnLoc+len(cn)\<close> up to
  \<^verbatim>\<open>termLoc\<close>.
\<close>

definition cn :: string where
  "cn = ''cn=''"

definition groupName :: "string \<Rightarrow> string option" where
  "groupName raw =
     (let cnLoc = Index raw cn;
          termLoc = Index raw '',''
      in slice raw (cnLoc + int (length cn)) termLoc)"

text \<open>Lines 203 to 209: the loop over the raw values, appending each name.\<close>

fun groupNames :: "string list \<Rightarrow> string list \<Rightarrow> failure + string list" where
  "groupNames [] memberOf = Inr memberOf"
| "groupNames (raw # raws) memberOf =
     (case groupName raw of
        None \<Rightarrow> Inl Panic
      | Some g \<Rightarrow> groupNames raws (memberOf @ [g]))"

text \<open>Lines 203 to 213: the names, or the queried group when there are none.\<close>

definition memberOfList :: "CommandLine \<Rightarrow> string list \<Rightarrow> failure + string list" where
  "memberOfList cl raws =
     (case groupNames raws [] of
        Inl f \<Rightarrow> Inl f
      | Inr memberOf \<Rightarrow>
          if length memberOf = 0 then Inr (memberOf @ [groupPtr cl]) else Inr memberOf)"

text \<open>
  Lines 215 to 221: the user name. \<^verbatim>\<open>components[0]\<close> is an index expression;
  \<open>None\<close> is its panic.
\<close>

definition entryUsername :: "Entry \<Rightarrow> string option" where
  "entryUsername entry =
     (if Contains (GetAttributeValue entry ''uid'') CHR ''@'' then
        (let email = GetAttributeValue entry ''uid'';
             components = Split email CHR ''@''
         in case components of [] \<Rightarrow> None | c # _ \<Rightarrow> Some c)
      else Some (GetAttributeValue entry ''uid''))"

text \<open>Lines 183 to 234: the body of the loop, for one entry.\<close>

definition listEntry ::
  "world \<Rightarrow> AuthkeysConfig \<Rightarrow> CommandLine \<Rightarrow> Entry \<Rightarrow> proc \<Rightarrow> (failure + User) \<times> proc" where
  "listEntry w config cl entry st =
     (case rawMemberOf w config cl entry st of
        (Inl f, st') \<Rightarrow> (Inl f, st')
      | (Inr raws, st') \<Rightarrow>
          (case memberOfList cl raws of
             Inl f \<Rightarrow> (Inl f, st')
           | Inr memberOf \<Rightarrow>
               (case entryUsername entry of
                  None \<Rightarrow> (Inl Panic, st')
                | Some username \<Rightarrow>
                    (Inr \<lparr>Uid = username,
                          UidNumber = GetAttributeValue entry ''uidNumber'',
                          GidNumber = GetAttributeValue entry ''gidNumber'',
                          MemberOf = memberOf,
                          HomeDirectory = GetAttributeValue entry ''homeDirectory'',
                          Shell = GetAttributeValue entry ''loginShell''\<rparr>, st'))))"

fun listEntries ::
  "world \<Rightarrow> AuthkeysConfig \<Rightarrow> CommandLine \<Rightarrow> Entry list \<Rightarrow> User list \<Rightarrow> proc
     \<Rightarrow> (failure + User list) \<times> proc" where
  "listEntries w config cl [] Users st = (Inr Users, st)"
| "listEntries w config cl (entry # entries) Users st =
     (case listEntry w config cl entry st of
        (Inl f, st') \<Rightarrow> (Inl f, st')
      | (Inr u, st') \<Rightarrow> listEntries w config cl entries (Users @ [u]) st')"

subsection \<open>main, lines 168 to 248: search, check of the count, output\<close>

text \<open>Lines 242 to 247: every value of the key attribute, of every entry, one per line.\<close>

definition printKeys :: "AuthkeysConfig \<Rightarrow> Entry list \<Rightarrow> proc \<Rightarrow> proc" where
  "printKeys config entries st =
     st\<lparr>stdout := stdout st
          @ concat (map (\<lambda>entry. GetAttributeValues entry (KeyAttribute config)) entries)\<rparr>"

definition lookup ::
  "world \<Rightarrow> AuthkeysConfig \<Rightarrow> CommandLine \<Rightarrow> bool \<Rightarrow> string \<Rightarrow> proc \<Rightarrow> (failure + unit) \<times> proc" where
  "lookup w config cl listUsers username st =
     (case Search w (searchRequest config cl listUsers username) st of
        (Inl err, st1) \<Rightarrow> (Inl (Fatal (SearchError err)), st1)
      | (Inr entries, st1) \<Rightarrow>
          if length entries = 0 then (Inl (Fatal NoEntries), st1)
          else if \<not> listUsers \<and> length entries > 1 then (Inl (Fatal TooManyEntries), st1)
          else if listUsers then
            (case listEntries w config cl entries [] st1 of
               (Inl f, st2) \<Rightarrow> (Inl f, st2)
             | (Inr Users, st2) \<Rightarrow>
                 (case marshal w Users of
                    Inl err \<Rightarrow> (Inl (Fatal (MarshalError err)), st2)
                  | Inr myUsers \<Rightarrow> (Inr (), st2\<lparr>stdout := stdout st2 @ [myUsers]\<rparr>)))
          else (Inr (), printKeys config entries st1))"

subsection \<open>main as a whole, and how the process ends\<close>

definition mainBody :: "world \<Rightarrow> AuthkeysConfig \<Rightarrow> CommandLine \<Rightarrow> proc \<Rightarrow> (failure + unit) \<times> proc" where
  "mainBody w config cl st =
     (case parseMode config cl of
        Inl f \<Rightarrow> (Inl f, st)
      | Inr (listUsers, username) \<Rightarrow>
          (case connect w config st of
             (Inl f, st1) \<Rightarrow> (Inl f, st1)
           | (Inr _, st1) \<Rightarrow> lookup w config cl listUsers username st1))"

text \<open>
  Deferred calls run when \<^verbatim>\<open>main\<close> returns and while a panic unwinds.
  \<^verbatim>\<open>os.Exit\<close>, which \<^verbatim>\<open>log.Fatal\<close> and \<^verbatim>\<open>log.Fatalf\<close> call, ends the process
  at once: deferred calls are not run.
\<close>

definition runDeferred :: "proc \<Rightarrow> proc" where
  "runDeferred st = (if deferred st then st\<lparr>closed := True\<rparr> else st)"

definition exitProcess :: "(failure + unit) \<times> proc \<Rightarrow> (failure + unit) \<times> proc" where
  "exitProcess rs =
     (case rs of
        (Inl (Fatal f), st) \<Rightarrow> (Inl (Fatal f), st)
      | (Inl Panic, st) \<Rightarrow> (Inl Panic, runDeferred st)
      | (Inr u, st) \<Rightarrow> (Inr u, runDeferred st))"

definition main :: "world \<Rightarrow> AuthkeysConfig \<Rightarrow> CommandLine \<Rightarrow> (failure + unit) \<times> proc" where
  "main w config cl = exitProcess (mainBody w config cl proc0)"

subsection \<open>Positions in a string, for stating the properties\<close>

text \<open>
  \<open>firstAt sub s i\<close>: the first place where \<open>sub\<close> occurs in \<open>s\<close> is position \<open>i\<close>
  (counted from 0).
\<close>

definition firstAt :: "string \<Rightarrow> string \<Rightarrow> nat \<Rightarrow> bool" where
  "firstAt sub s i \<longleftrightarrow>
     i \<le> length s \<and> prefix sub (drop i s) \<and> (\<forall>k<i. \<not> prefix sub (drop k s))"

subsection \<open>Concrete invocations\<close>

text \<open>
  A configuration, command lines, entries and an environment in which every step of the
  connection succeeds; the directory is still a parameter. The encoder of the
  environment stands in for \<^verbatim>\<open>json.Marshal\<close>: it writes each member's identity and
  groups.
\<close>

definition exampleConfig :: AuthkeysConfig where
  "exampleConfig =
     \<lparr>BaseDN = ''dc=example,dc=com'', GroupObject = ''groups'', DialTimeout = 0,
      KeyAttribute = ''sshPublicKey'', LDAPServer = ''ldap.example.com'', LDAPPort = 389,
      RootCAFile = [], UserAttribute = ''uid'', UserPostfix = [], BindDN = [], BindPW = []\<rparr>"

definition userLookup :: "string \<Rightarrow> CommandLine" where
  "userLookup name = \<lparr>groupPtr = [], minPtr = [], Args = [''authkeys'', name]\<rparr>"

definition groupLookup :: "string \<Rightarrow> string \<Rightarrow> CommandLine" where
  "groupLookup g m = \<lparr>groupPtr = g, minPtr = m, Args = [''authkeys'', ''-group'', g]\<rparr>"

definition render :: "User list \<Rightarrow> string" where
  "render Users =
     concat (map (\<lambda>u. Uid u @ '':'' @ concat (map (\<lambda>g. g @ '' '') (MemberOf u)) @ '';'') Users)"

definition exampleWorld :: "(nat \<Rightarrow> SearchRequest \<Rightarrow> string + Entry list) \<Rightarrow> world" where
  "exampleWorld d =
     \<lparr>dial = (\<lambda>_ _ _. None), readFile = (\<lambda>_. Inl ''no such file''),
      appendCertsFromPEM = (\<lambda>_. False), startTLS = (\<lambda>_ _. None), bind = (\<lambda>_ _. None),
      directory = d, marshal = (\<lambda>Users. Inr (render Users))\<rparr>"

definition alice :: Entry where
  "alice = [(''uid'', [''alice'']), (''memberOf'', [''cn=admins,ou=groups,dc=example,dc=com''])]"

definition bob :: Entry where
  "bob = [(''uid'', [''bob@example.com'']),
          (''memberOf'', [''cn=admins,ou=groups,dc=example,dc=com''])]"

definition carol :: Entry where
  "carol = [(''uid'', [''carol'']), (''memberOf'', [''cn=staff,ou=groups,dc=example,dc=com''])]"

definition dave :: Entry where
  "dave = [(''uid'', [''dave'']), (''mail'', [''dave@example.com''])]"

definition aliceMin :: Entry where
  "aliceMin = [(''uid'', [''alice''])]"

definition bobMin :: Entry where
  "bobMin = [(''uid'', [''bob@example.com''])]"

definition memberships :: Entry where
  "memberships = [(''memberOf'', [''cn=admins,ou=groups,dc=example,dc=com'',
                                 ''cn=ops,ou=groups,dc=example,dc=com''])]"

definition mailConfig :: AuthkeysConfig where
  "mailConfig = exampleConfig\<lparr>UserAttribute := ''mail''\<rparr>"

text \<open>
  Directories: one that finds nothing; one that answers every search with two members;
  one that answers the first search of a connection with two members that carry no
  membership and every later search with two memberships alone; and one that answers
  the first search with one member and every later search with no entry.
\<close>

definition nobody :: "nat \<Rightarrow> SearchRequest \<Rightarrow> string + Entry list" where
  "nobody n req = Inr []"

definition twoAdmins :: "nat \<Rightarrow> SearchRequest \<Rightarrow> string + Entry list" where
  "twoAdmins n req = Inr [alice, bob]"

definition twoAdminsMin :: "nat \<Rightarrow> SearchRequest \<Rightarrow> string + Entry list" where
  "twoAdminsMin n req = (if n = 0 then Inr [aliceMin, bobMin] else Inr [memberships])"

definition carolThenNothing :: "nat \<Rightarrow> SearchRequest \<Rightarrow> string + Entry list" where
  "carolThenNothing n req = (if n = 0 then Inr [carol] else Inr [])"


text \<open>The state of the process once the first search of a group listing has been sent.\<close>

definition afterSearch :: "AuthkeysConfig \<Rightarrow> CommandLine \<Rightarrow> proc" where
  "afterSearch config cl = proc0\<lparr>requests := [searchRequest config cl True []]\<rparr>"

section \<open>Properties\<close>

subsection \<open>Positions of substrings\<close>

lemma Index_prefix: "prefix sub s \<Longrightarrow> Index s sub = 0"
  by (cases s) auto

lemma Index_upper: "Index s sub < 0 \<or> Index s sub + int (length sub) \<le> int (length s)"
proof (induction s)
  case Nil
  then show ?case by simp
next
  case (Cons c s)
  then show ?case by (auto simp: Let_def dest: prefix_length_le)
qed

lemma Index_lower: "- 1 \<le> Index s sub"
  by (induction s) (auto simp: Let_def)

lemma Index_first:
  "i \<le> length s \<Longrightarrow> prefix sub (drop i s) \<Longrightarrow> (\<forall>k<i. \<not> prefix sub (drop k s))
     \<Longrightarrow> Index s sub = int i"
proof (induction s arbitrary: i)
  case Nil
  then show ?case by simp
next
  case (Cons c s)
  show ?case
  proof (cases i)
    case 0
    with Cons.prems show ?thesis by simp
  next
    case (Suc j)
    from Cons.prems Suc have np: "\<not> prefix sub (c # s)" by (metis drop0 zero_less_Suc)
    have "\<forall>k<j. \<not> prefix sub (drop k s)"
    proof (intro allI impI)
      fix k assume "k < j"
      then have "Suc k < i" using Suc by simp
      with Cons.prems(3) have "\<not> prefix sub (drop (Suc k) (c # s))" by blast
      then show "\<not> prefix sub (drop k s)" by simp
    qed
    moreover have "j \<le> length s" "prefix sub (drop j s)" using Cons.prems Suc by auto
    ultimately have "Index s sub = int j" using Cons.IH by blast
    with np Suc show ?thesis by (simp add: Let_def)
  qed
qed

lemma Index_firstAt: "firstAt sub s i \<Longrightarrow> Index s sub = int i"
  unfolding firstAt_def using Index_first by blast

lemma Index_char_absent: "c \<notin> set s \<Longrightarrow> Index s [c] = - 1"
  by (induction s) auto

lemma Index_char_first: "c \<notin> set pre \<Longrightarrow> Index (pre @ c # post) [c] = int (length pre)"
  by (induction pre) (auto simp: Let_def)

lemma Split_first: "c \<notin> set pre \<Longrightarrow> Split (pre @ c # post) c = pre # Split post c"
  by (induction pre) auto

subsection \<open>Group names\<close>

lemma groupName_None_iff: "groupName raw = None \<longleftrightarrow> Index raw '','' < Index raw cn + 3"
proof -
  have "Index raw '','' < 0 \<or> Index raw '','' + 1 \<le> int (length raw)"
    using Index_upper [of raw "'',''"] by simp
  moreover have "- 1 \<le> Index raw cn" by (rule Index_lower)
  ultimately show ?thesis
    by (auto simp: groupName_def slice_def cn_def Let_def)
qed

lemma groupNames_panic:
  "raw \<in> set raws \<Longrightarrow> groupName raw = None \<Longrightarrow> groupNames raws acc = Inl Panic"
  by (induction raws arbitrary: acc) (auto split: option.splits)

text \<open>
  C3. For a membership string \<open>cn=<name>,<rest>\<close>, where \<open><name>\<close> is what stands
  between the marker and the first comma after it (so \<open><name>\<close> has no comma), the
  extraction returns exactly \<open><name>\<close>, whatever \<open><rest>\<close> is.
\<close>

theorem groupName_cn_name:
  "CHR '','' \<notin> set name \<Longrightarrow> groupName (''cn='' @ name @ '','' @ rest) = Some name"
proof -
  assume a: "CHR '','' \<notin> set name"
  let ?s = "''cn='' @ name @ '','' @ rest"
  have c: "Index ?s cn = 0" by (simp add: cn_def)
  have "CHR '','' \<notin> set (''cn='' @ name)" using a by simp
  then have "Index ((''cn='' @ name) @ CHR '','' # rest) '','' = int (length (''cn='' @ name))"
    by (rule Index_char_first)
  then have t: "Index ?s '','' = 3 + int (length name)" by simp
  show ?thesis
    unfolding groupName_def Let_def c t by (simp add: slice_def cn_def)
qed

theorem groupName_cn_name_witness:
  "CHR '','' \<notin> set ''admins'' \<and>
   groupName ''cn=admins,ou=groups,dc=example,dc=com'' = Some ''admins''"
  using groupName_cn_name [of "''admins''" "''ou=groups,dc=example,dc=com''"] by simp

text \<open>
  C8. The extraction is partial. A raw value with no comma panics. With the first
  \<open>cn=\<close> at position \<open>i\<close> and the first comma at position \<open>j\<close>, it panics when
  \<open>j < i + 3\<close>, and returns the bytes from \<open>i + 3\<close> up to \<open>j\<close> when \<open>i + 3 \<le> j\<close>.
  In the positions the code computes: it panics exactly when the comma's position is
  below the marker's position plus 3. A panic on one raw value is the result of the
  whole list of values: no name and no classified error.
\<close>

theorem groupName_partial:
  "(CHR '','' \<notin> set raw \<longrightarrow> groupName raw = None) \<and>
   (firstAt cn raw i \<and> firstAt '','' raw j \<and> j < i + 3 \<longrightarrow> groupName raw = None) \<and>
   (firstAt cn raw i \<and> firstAt '','' raw j \<and> i + 3 \<le> j \<longrightarrow>
      groupName raw = Some (take (j - (i + 3)) (drop (i + 3) raw))) \<and>
   (groupName raw = None \<longleftrightarrow> Index raw '','' < Index raw cn + 3) \<and>
   (groupName raw = None \<and> raw \<in> set raws \<longrightarrow> memberOfList cl raws = Inl Panic)"
proof (intro conjI impI)
  assume "CHR '','' \<notin> set raw"
  then have "Index raw '','' = - 1" by (rule Index_char_absent)
  moreover have "- 1 \<le> Index raw cn" by (rule Index_lower)
  ultimately show "groupName raw = None" by (simp add: groupName_None_iff)
next
  assume "firstAt cn raw i \<and> firstAt '','' raw j \<and> j < i + 3"
  then have "Index raw cn = int i" "Index raw '','' = int j" "j < i + 3"
    by (simp_all add: Index_firstAt)
  then show "groupName raw = None"
    by (simp add: groupName_None_iff)
next
  assume a: "firstAt cn raw i \<and> firstAt '','' raw j \<and> i + 3 \<le> j"
  then have c: "Index raw cn = int i" and t: "Index raw '','' = int j"
    by (simp_all add: Index_firstAt)
  from a have "j \<le> length raw" by (simp add: firstAt_def)
  with a show "groupName raw = Some (take (j - (i + 3)) (drop (i + 3) raw))"
    unfolding groupName_def Let_def c t
    by (simp add: slice_def cn_def nat_add_distrib nat_diff_distrib')
next
  show "groupName raw = None \<longleftrightarrow> Index raw '','' < Index raw cn + 3"
    by (rule groupName_None_iff)
next
  assume "groupName raw = None \<and> raw \<in> set raws"
  then have "groupNames raws [] = Inl Panic"
    using groupNames_panic by blast
  then show "memberOfList cl raws = Inl Panic"
    by (simp add: memberOfList_def)
qed

theorem groupName_partial_witness:
  "CHR '','' \<notin> set ''cn=admins'' \<and> groupName ''cn=admins'' = None \<and>
   firstAt cn ''ou=x,cn=admins'' 5 \<and> firstAt '','' ''ou=x,cn=admins'' 4 \<and> (4::nat) < 5 + 3 \<and>
   groupName ''ou=x,cn=admins'' = None \<and>
   firstAt cn ''cn=admins,ou=groups'' 0 \<and> firstAt '','' ''cn=admins,ou=groups'' 9 \<and>
   (0::nat) + 3 \<le> 9 \<and> groupName ''cn=admins,ou=groups'' = Some ''admins'' \<and>
   ''cn=admins'' \<in> set [''cn=a,ou=b'', ''cn=admins''] \<and>
   memberOfList (groupLookup ''admins'' []) [''cn=a,ou=b'', ''cn=admins''] = Inl Panic"
proof -
  have a: "CHR '','' \<notin> set ''cn=admins''" by simp
  have b: "firstAt cn ''ou=x,cn=admins'' 5 \<and> firstAt '','' ''ou=x,cn=admins'' 4 \<and>
    (4::nat) < 5 + 3"
    by code_simp
  have c: "firstAt cn ''cn=admins,ou=groups'' 0 \<and> firstAt '','' ''cn=admins,ou=groups'' 9 \<and>
    (0::nat) + 3 \<le> 9"
    by code_simp
  have d: "''cn=admins'' \<in> set [''cn=a,ou=b'', ''cn=admins'']" by simp
  note t1 = groupName_partial [of "''cn=admins''" 0 0 "[''cn=a,ou=b'', ''cn=admins'']"
      "groupLookup ''admins'' []"]
  note t2 = groupName_partial [of "''ou=x,cn=admins''" 5 4 "[]" "groupLookup ''admins'' []"]
  note t3 = groupName_partial [of "''cn=admins,ou=groups''" 0 9 "[]" "groupLookup ''admins'' []"]
  from t1 a d have r1: "groupName ''cn=admins'' = None"
    and r4: "memberOfList (groupLookup ''admins'' []) [''cn=a,ou=b'', ''cn=admins''] = Inl Panic"
    by blast+
  from t2 b have r2: "groupName ''ou=x,cn=admins'' = None" by blast
  from t3 c have "groupName ''cn=admins,ou=groups''
      = Some (take (9 - (0 + 3)) (drop (0 + 3) ''cn=admins,ou=groups''))"
    by blast
  then have r3: "groupName ''cn=admins,ou=groups'' = Some ''admins''" by simp
  from a b c d r1 r2 r3 r4 show ?thesis by blast
qed

subsection \<open>The identity\<close>

text \<open>
  C4. When the value of \<open>uid\<close> contains an \<open>@\<close>, the user name is what stands before
  the first \<open>@\<close>; when it contains none, the user name is the value unchanged. The
  index expression never panics.
\<close>

theorem entryUsername_normalized:
  "(CHR ''@'' \<notin> set pre \<and> GetAttributeValue entry ''uid'' = pre @ CHR ''@'' # post
      \<longrightarrow> entryUsername entry = Some pre) \<and>
   (CHR ''@'' \<notin> set (GetAttributeValue entry ''uid'')
      \<longrightarrow> entryUsername entry = Some (GetAttributeValue entry ''uid''))"
  by (auto simp: entryUsername_def Contains_def Let_def Split_first)

theorem entryUsername_normalized_witness:
  "CHR ''@'' \<notin> set ''bob'' \<and>
   GetAttributeValue bobMin ''uid'' = ''bob'' @ CHR ''@'' # ''example.com'' \<and>
   entryUsername bobMin = Some ''bob'' \<and>
   CHR ''@'' \<notin> set (GetAttributeValue aliceMin ''uid'') \<and>
   entryUsername aliceMin = Some ''alice''"
  using entryUsername_normalized [of "''bob''" bobMin "''example.com''"]
    entryUsername_normalized [of "[]" aliceMin "[]"]
  by (simp add: GetAttributeValue_def GetAttributeValues_def bobMin_def aliceMin_def)

subsection \<open>The connection, the loop over the entries, and main\<close>

lemma connect_Inr:
  "fst (connect w config st) = Inr u \<Longrightarrow>
   connect w config st = (Inr (), st\<lparr>established := True, deferred := True\<rparr>)"
  by (auto simp: connect_def Let_def split: option.splits sum.splits if_splits)

lemma groupNames_length:
  "groupNames raws acc = Inr memberOf \<Longrightarrow> length memberOf = length acc + length raws"
  by (induction raws arbitrary: acc) (auto split: option.splits)


lemma memberOfList_nonempty: "memberOfList cl raws = Inr memberOf \<Longrightarrow> memberOf \<noteq> []"
  by (auto simp: memberOfList_def split: sum.splits if_splits)

lemma memberOfList_Nil: "memberOfList cl [] = Inr [groupPtr cl]"
  by (simp add: memberOfList_def)


lemma fold_overwrite:
  "fold (\<lambda>x _. g x) xs a = (if xs = [] then a else g (last xs))"
  by (induction xs arbitrary: a) auto







text \<open>main, under the hypotheses that the mode is decided and the connection stands.\<close>

lemma main_lookup:
  assumes "parseMode config cl = Inr (listUsers, username)"
    and "fst (connect w config proc0) = Inr ()"
  shows "main w config cl =
    exitProcess (lookup w config cl listUsers username (proc0\<lparr>established := True, deferred := True\<rparr>))"
  using assms connect_Inr [of w config proc0 "()"]
  by (simp add: main_def mainBody_def)

subsection \<open>The count of the entries\<close>

text \<open>
  C2. In both modes (\<open>listUsers\<close> false or true), once the mode is decided and the
  connection stands, a first search that returns no entry ends the invocation with the
  fatal exit of line 174 (\<^verbatim>\<open>No entries returned from LDAP\<close>, which the
  specification classifies as a query error), and nothing has been written to standard
  output.
\<close>

theorem zero_entries_fatal:
  assumes "parseMode config cl = Inr (listUsers, username)"
    and "fst (connect w config proc0) = Inr ()"
    and "directory w 0 (searchRequest config cl listUsers username) = Inr []"
  shows "fst (main w config cl) = Inl (Fatal NoEntries) \<and> stdout (snd (main w config cl)) = []"
  using assms(3) unfolding main_lookup [OF assms(1,2)]
  by (simp add: lookup_def Search_def proc0_def exitProcess_def)

theorem zero_entries_fatal_witness:
  "parseMode exampleConfig (userLookup ''bob'') = Inr (False, ''bob'') \<and>
   parseMode exampleConfig (groupLookup ''admins'' []) = Inr (True, []) \<and>
   fst (connect (exampleWorld nobody) exampleConfig proc0) = Inr () \<and>
   directory (exampleWorld nobody) 0 (searchRequest exampleConfig (userLookup ''bob'') False ''bob'') = Inr [] \<and>
   directory (exampleWorld nobody) 0 (searchRequest exampleConfig (groupLookup ''admins'' []) True []) = Inr [] \<and>
   fst (main (exampleWorld nobody) exampleConfig (userLookup ''bob'')) = Inl (Fatal NoEntries) \<and>
   stdout (snd (main (exampleWorld nobody) exampleConfig (userLookup ''bob''))) = [] \<and>
   fst (main (exampleWorld nobody) exampleConfig (groupLookup ''admins'' [])) = Inl (Fatal NoEntries) \<and>
   stdout (snd (main (exampleWorld nobody) exampleConfig (groupLookup ''admins'' []))) = []"
proof -
  have p1: "parseMode exampleConfig (userLookup ''bob'') = Inr (False, ''bob'')"
    by (simp add: parseMode_def userLookup_def exampleConfig_def)
  have p2: "parseMode exampleConfig (groupLookup ''admins'' []) = Inr (True, [])"
    by (simp add: parseMode_def groupLookup_def)
  have c: "fst (connect (exampleWorld nobody) exampleConfig proc0) = Inr ()"
    by (simp add: connect_def exampleWorld_def exampleConfig_def rootCAs_def Let_def)
  have d1: "directory (exampleWorld nobody) 0
      (searchRequest exampleConfig (userLookup ''bob'') False ''bob'') = Inr []"
    by (simp add: exampleWorld_def nobody_def)
  have d2: "directory (exampleWorld nobody) 0
      (searchRequest exampleConfig (groupLookup ''admins'' []) True []) = Inr []"
    by (simp add: exampleWorld_def nobody_def)
  from zero_entries_fatal [OF p1 c d1] zero_entries_fatal [OF p2 c d2] p1 p2 c d1 d2
  show ?thesis by blast
qed



subsection \<open>Group lists are never empty\<close>

lemma Split_nonempty: "Split s c \<noteq> []"
  by (induction s) (auto split: list.splits)

lemma entryUsername_total: "\<exists>n. entryUsername entry = Some n"
  using Split_nonempty [of "GetAttributeValue entry ''uid''" "CHR ''@''"]
  by (auto simp: entryUsername_def Let_def split: list.splits)

lemma listEntry_MemberOf: "listEntry w config cl entry st = (Inr u, st') \<Longrightarrow> MemberOf u \<noteq> []"
  by (auto simp: listEntry_def split: prod.splits sum.splits option.splits
      dest: memberOfList_nonempty)

lemma listEntries_MemberOf:
  "listEntries w config cl entries Users st = (Inr Users', st') \<Longrightarrow>
   \<forall>u\<in>set Users. MemberOf u \<noteq> [] \<Longrightarrow> \<forall>u\<in>set Users'. MemberOf u \<noteq> []"
proof (induction entries arbitrary: Users st)
  case Nil
  then show ?case by simp
next
  case (Cons entry entries)
  obtain r st1 where le: "listEntry w config cl entry st = (r, st1)"
    by (cases "listEntry w config cl entry st")
  show ?case
  proof (cases r)
    case (Inl f)
    with le Cons.prems(1) show ?thesis by simp
  next
    case (Inr u)
    with le have "MemberOf u \<noteq> []" using listEntry_MemberOf by blast
    with Cons.prems(2) have "\<forall>x\<in>set (Users @ [u]). MemberOf x \<noteq> []" by simp
    moreover from le Inr Cons.prems(1)
    have "listEntries w config cl entries (Users @ [u]) st1 = (Inr Users', st')" by simp
    ultimately show ?thesis using Cons.IH by blast
  qed
qed

text \<open>
  C6. An empty list of raw membership values yields the list holding just the queried
  group; so an entry whose raw values are empty after the fallback step is emitted with
  exactly that list, and every member record of a listing that completes has a group
  list that is not empty.
\<close>

theorem memberOf_never_empty:
  "memberOfList cl [] = Inr [groupPtr cl] \<and>
   (rawMemberOf w config cl entry st = (Inr [], st') \<longrightarrow>
      (\<exists>u. listEntry w config cl entry st = (Inr u, st') \<and> MemberOf u = [groupPtr cl])) \<and>
   (listEntries w config cl entries [] st = (Inr Users, st'') \<longrightarrow>
      (\<forall>u\<in>set Users. MemberOf u \<noteq> []))"
proof (intro conjI impI)
  show "memberOfList cl [] = Inr [groupPtr cl]" by (rule memberOfList_Nil)
next
  assume r: "rawMemberOf w config cl entry st = (Inr [], st')"
  obtain n where "entryUsername entry = Some n" using entryUsername_total by blast
  with r show "\<exists>u. listEntry w config cl entry st = (Inr u, st') \<and> MemberOf u = [groupPtr cl]"
    by (simp add: listEntry_def memberOfList_Nil)
next
  assume "listEntries w config cl entries [] st = (Inr Users, st'')"
  then show "\<forall>u\<in>set Users. MemberOf u \<noteq> []"
    using listEntries_MemberOf [of w config cl entries "[]" st Users st''] by simp
qed

theorem memberOf_never_empty_witness:
  "rawMemberOf (exampleWorld twoAdmins) exampleConfig (groupLookup ''admins'' []) aliceMin proc0
     = (Inr [], proc0) \<and>
   listEntry (exampleWorld twoAdmins) exampleConfig (groupLookup ''admins'' []) aliceMin proc0
     = (Inr \<lparr>Uid = ''alice'', UidNumber = [], GidNumber = [], MemberOf = [''admins''],
              HomeDirectory = [], Shell = []\<rparr>, proc0) \<and>
   listEntries (exampleWorld twoAdmins) exampleConfig (groupLookup ''admins'' []) [aliceMin, bob]
       [] proc0
     = (Inr [\<lparr>Uid = ''alice'', UidNumber = [], GidNumber = [], MemberOf = [''admins''],
               HomeDirectory = [], Shell = []\<rparr>,
             \<lparr>Uid = ''bob'', UidNumber = [], GidNumber = [], MemberOf = [''admins''],
               HomeDirectory = [], Shell = []\<rparr>], proc0) \<and>
   MemberOf \<lparr>Uid = ''bob'', UidNumber = [], GidNumber = [], MemberOf = [''admins''],
               HomeDirectory = [], Shell = []\<rparr> \<noteq> []"
proof -
  let ?w = "exampleWorld twoAdmins" and ?cl = "groupLookup ''admins'' []"
  let ?a = "\<lparr>Uid = ''alice'', UidNumber = [], GidNumber = [], MemberOf = [''admins''],
              HomeDirectory = [], Shell = []\<rparr>"
  let ?b = "\<lparr>Uid = ''bob'', UidNumber = [], GidNumber = [], MemberOf = [''admins''],
               HomeDirectory = [], Shell = []\<rparr>"
  have r: "rawMemberOf ?w exampleConfig ?cl aliceMin proc0 = (Inr [], proc0)"
    by code_simp
  have e: "listEntry ?w exampleConfig ?cl aliceMin proc0 = (Inr ?a, proc0)"
    by code_simp
  have l: "listEntries ?w exampleConfig ?cl [aliceMin, bob] [] proc0 = (Inr [?a, ?b], proc0)"
    by code_simp
  note t = memberOf_never_empty [of ?cl ?w exampleConfig aliceMin proc0 proc0 "[aliceMin, bob]"
      "[?a, ?b]" proc0]
  from t l have "\<forall>u\<in>set [?a, ?b]. MemberOf u \<noteq> []" by blast
  then have "MemberOf ?b \<noteq> []" by simp
  with r e l show ?thesis by blast
qed

subsection \<open>The identity value of the fallback search\<close>

lemma rawMemberOf_no_value:
  "minPtr cl \<noteq> [] \<Longrightarrow> GetAttributeValues entry (UserAttribute config) = [] \<Longrightarrow>
   rawMemberOf w config cl entry st = (Inl Panic, st)"
  by (simp add: rawMemberOf_def)

lemma listEntry_no_value:
  "minPtr cl \<noteq> [] \<Longrightarrow> GetAttributeValues entry (UserAttribute config) = [] \<Longrightarrow>
   listEntry w config cl entry st = (Inl Panic, st)"
  by (simp add: listEntry_def rawMemberOf_no_value)

lemma listEntry_requests:
  "minPtr cl \<noteq> [] \<Longrightarrow> GetAttributeValues entry (UserAttribute config) = v # vs \<Longrightarrow>
   snd (listEntry w config cl entry st) = st\<lparr>requests := requests st @ [userSearchRequest config v]\<rparr>"
  by (auto simp: listEntry_def rawMemberOf_def Search_def Let_def
      split: sum.splits option.splits prod.splits)

lemma GetAttributeValues_absent:
  "a \<notin> fst ` set entry \<Longrightarrow> GetAttributeValues entry a = []"
proof -
  assume "a \<notin> fst ` set entry"
  then have "map_of entry a = None" by (simp add: map_of_eq_None_iff)
  then show ?thesis by (simp add: GetAttributeValues_def)
qed

text \<open>
  C9. With the flag \<^verbatim>\<open>min\<close> set: an entry with no value for the configured identity
  attribute makes the body of the loop, the loop and the whole invocation end in a panic,
  with no request sent for it and nothing printed; an entry with a value \<open>v\<close> first has
  the filter \<open>(<attribute>=v)\<close> sent for it. The attributes requested by the first
  search are the five of line 92, so an entry that carries only requested attributes has
  no value whenever the configured attribute is not one of the five.
\<close>

theorem identity_index_panics:
  assumes "minPtr cl \<noteq> []"
  shows "(GetAttributeValues entry (UserAttribute config) = [] \<longrightarrow>
            listEntry w config cl entry st = (Inl Panic, st) \<and>
            listEntries w config cl (entry # entries) Users st = (Inl Panic, st)) \<and>
         (GetAttributeValues entry (UserAttribute config) = v # vs \<longrightarrow>
            requests (snd (listEntry w config cl entry st)) = requests st @
              [\<lparr>reqBaseDN = BaseDN config,
                reqFilter = ''('' @ UserAttribute config @ ''='' @ v @ '')'',
                reqAttributes = [''memberOf'']\<rparr>]) \<and>
         attributes cl = [''uid'', ''uidNumber'', ''gidNumber'', ''homeDirectory'', ''loginShell''] \<and>
         (UserAttribute config \<notin> set (attributes cl) \<and> fst ` set entry \<subseteq> set (attributes cl) \<longrightarrow>
            listEntry w config cl entry st = (Inl Panic, st)) \<and>
         (GetAttributeValues entry (UserAttribute config) = [] \<and>
          parseMode config cl = Inr (True, username) \<and>
          fst (connect w config proc0) = Inr () \<and>
          directory w 0 (searchRequest config cl True username) = Inr (entry # entries) \<longrightarrow>
            fst (main w config cl) = Inl Panic \<and> stdout (snd (main w config cl)) = [])"
proof (intro conjI impI)
  assume a: "GetAttributeValues entry (UserAttribute config) = []"
  with assms show "listEntry w config cl entry st = (Inl Panic, st)"
    by (rule listEntry_no_value)
  then show "listEntries w config cl (entry # entries) Users st = (Inl Panic, st)" by simp
next
  assume "GetAttributeValues entry (UserAttribute config) = v # vs"
  with assms show "requests (snd (listEntry w config cl entry st)) = requests st @
              [\<lparr>reqBaseDN = BaseDN config,
                reqFilter = ''('' @ UserAttribute config @ ''='' @ v @ '')'',
                reqAttributes = [''memberOf'']\<rparr>]"
    by (simp add: listEntry_requests userSearchRequest_def)
next
  from assms
  show "attributes cl = [''uid'', ''uidNumber'', ''gidNumber'', ''homeDirectory'', ''loginShell'']"
    by (simp add: attributes_def)
next
  assume "UserAttribute config \<notin> set (attributes cl) \<and> fst ` set entry \<subseteq> set (attributes cl)"
  then have "UserAttribute config \<notin> fst ` set entry" by blast
  then have "GetAttributeValues entry (UserAttribute config) = []"
    by (rule GetAttributeValues_absent)
  with assms show "listEntry w config cl entry st = (Inl Panic, st)"
    by (rule listEntry_no_value)
next
  assume a: "GetAttributeValues entry (UserAttribute config) = [] \<and>
          parseMode config cl = Inr (True, username) \<and>
          fst (connect w config proc0) = Inr () \<and>
          directory w 0 (searchRequest config cl True username) = Inr (entry # entries)"
  then have m: "main w config cl = exitProcess (lookup w config cl True username
      (proc0\<lparr>established := True, deferred := True\<rparr>))"
    using main_lookup by blast
  from a assms have le: "listEntry w config cl entry s = (Inl Panic, s)" for s
    using listEntry_no_value by blast
  from a show "fst (main w config cl) = Inl Panic"
    unfolding m by (simp add: lookup_def Search_def proc0_def le exitProcess_def)
  from a show "stdout (snd (main w config cl)) = []"
    unfolding m by (simp add: lookup_def Search_def proc0_def le exitProcess_def runDeferred_def)
qed

theorem identity_index_panics_witness:
  "minPtr (groupLookup ''admins'' ''1'') \<noteq> [] \<and>
   GetAttributeValues aliceMin (UserAttribute mailConfig) = [] \<and>
   listEntry (exampleWorld twoAdminsMin) mailConfig (groupLookup ''admins'' ''1'') aliceMin proc0
     = (Inl Panic, proc0) \<and>
   GetAttributeValues aliceMin (UserAttribute exampleConfig) = [''alice''] \<and>
   requests (snd (listEntry (exampleWorld twoAdminsMin) exampleConfig
       (groupLookup ''admins'' ''1'') aliceMin proc0))
     = [\<lparr>reqBaseDN = ''dc=example,dc=com'', reqFilter = ''(uid=alice)'',
         reqAttributes = [''memberOf'']\<rparr>] \<and>
   UserAttribute mailConfig \<notin> set (attributes (groupLookup ''admins'' ''1'')) \<and>
   fst ` set aliceMin \<subseteq> set (attributes (groupLookup ''admins'' ''1'')) \<and>
   parseMode mailConfig (groupLookup ''admins'' ''1'') = Inr (True, []) \<and>
   fst (connect (exampleWorld twoAdminsMin) mailConfig proc0) = Inr () \<and>
   directory (exampleWorld twoAdminsMin) 0
     (searchRequest mailConfig (groupLookup ''admins'' ''1'') True []) = Inr [aliceMin, bobMin] \<and>
   fst (main (exampleWorld twoAdminsMin) mailConfig (groupLookup ''admins'' ''1'')) = Inl Panic \<and>
   stdout (snd (main (exampleWorld twoAdminsMin) mailConfig (groupLookup ''admins'' ''1''))) = []"
proof -
  let ?w = "exampleWorld twoAdminsMin" and ?cl = "groupLookup ''admins'' ''1''"
  have m: "minPtr ?cl \<noteq> []" by (simp add: groupLookup_def)
  have g1: "GetAttributeValues aliceMin (UserAttribute mailConfig) = []"
    by (simp add: GetAttributeValues_def aliceMin_def mailConfig_def)
  have g2: "GetAttributeValues aliceMin (UserAttribute exampleConfig) = [''alice'']"
    by (simp add: GetAttributeValues_def aliceMin_def exampleConfig_def)
  have u: "UserAttribute mailConfig \<notin> set (attributes ?cl) \<and>
      fst ` set aliceMin \<subseteq> set (attributes ?cl)"
    by (simp add: mailConfig_def attributes_def groupLookup_def aliceMin_def)
  have p: "parseMode mailConfig ?cl = Inr (True, [])"
    by (simp add: parseMode_def groupLookup_def)
  have c: "fst (connect ?w mailConfig proc0) = Inr ()"
    by (simp add: connect_def exampleWorld_def exampleConfig_def mailConfig_def rootCAs_def Let_def)
  have d: "directory ?w 0 (searchRequest mailConfig ?cl True []) = Inr [aliceMin, bobMin]"
    by (simp add: exampleWorld_def twoAdminsMin_def)
  note t1 = identity_index_panics [OF m, of aliceMin mailConfig ?w proc0 "[bobMin]" "[]"
      "[]" "[]" "[]"]
  note t2 = identity_index_panics [OF m, of aliceMin exampleConfig ?w proc0 "[]" "[]"
      "''alice''" "[]" "[]"]
  from t1 g1 p c d
  have r1: "listEntry ?w mailConfig ?cl aliceMin proc0 = (Inl Panic, proc0)"
    and r3: "fst (main ?w mailConfig ?cl) = Inl Panic"
    and r4: "stdout (snd (main ?w mailConfig ?cl)) = []"
    by blast+
  from t2 g2 have "requests (snd (listEntry ?w exampleConfig ?cl aliceMin proc0)) =
      requests proc0 @ [\<lparr>reqBaseDN = BaseDN exampleConfig,
        reqFilter = ''('' @ UserAttribute exampleConfig @ ''='' @ ''alice'' @ '')'',
        reqAttributes = [''memberOf'']\<rparr>]"
    by blast
  then have r2: "requests (snd (listEntry ?w exampleConfig ?cl aliceMin proc0))
     = [\<lparr>reqBaseDN = ''dc=example,dc=com'', reqFilter = ''(uid=alice)'',
         reqAttributes = [''memberOf'']\<rparr>]"
    by (simp add: proc0_def exampleConfig_def)
  from m g1 g2 u p c d r1 r2 r3 r4 show ?thesis by blast
qed

subsection \<open>The fallback search\<close>

lemma listEntry_min_Inr:
  assumes "minPtr cl \<noteq> []" and "listEntry w config cl entry st = (Inr u, st1)"
  shows "\<exists>v vs userEntries.
      GetAttributeValues entry (UserAttribute config) = v # vs \<and>
      directory w (length (requests st)) (userSearchRequest config v) = Inr userEntries \<and>
      st1 = st\<lparr>requests := requests st @ [userSearchRequest config v]\<rparr> \<and>
      memberOfList cl (if userEntries = [] then GetAttributeValues entry ''memberOf''
                       else GetAttributeValues (last userEntries) ''memberOf'')
        = Inr (MemberOf u)"
proof (cases "GetAttributeValues entry (UserAttribute config)")
  case Nil
  with assms show ?thesis by (simp add: listEntry_no_value)
next
  case (Cons v vs)
  show ?thesis
  proof (cases "directory w (length (requests st)) (userSearchRequest config v)")
    case (Inl err)
    with assms Cons show ?thesis
      by (simp add: listEntry_def rawMemberOf_def Search_def)
  next
    case (Inr userEntries)
    with assms Cons show ?thesis
      by (auto simp: listEntry_def rawMemberOf_def Search_def Let_def fold_overwrite
          split: sum.splits option.splits if_splits)
  qed
qed

lemma listEntries_min_requests:
  "minPtr cl \<noteq> [] \<Longrightarrow> listEntries w config cl entries Users st = (Inr Users', st') \<Longrightarrow>
   length (requests st') = length (requests st) + length entries"
proof (induction entries arbitrary: Users st)
  case Nil
  then show ?case by simp
next
  case (Cons entry entries)
  obtain r st1 where le: "listEntry w config cl entry st = (r, st1)"
    by (cases "listEntry w config cl entry st")
  show ?case
  proof (cases r)
    case (Inl f)
    with le Cons.prems(2) show ?thesis by simp
  next
    case (Inr u)
    with le have "listEntry w config cl entry st = (Inr u, st1)" by simp
    then obtain v where "st1 = st\<lparr>requests := requests st @ [userSearchRequest config v]\<rparr>"
      using listEntry_min_Inr [OF Cons.prems(1)] by blast
    then have "length (requests st1) = length (requests st) + 1" by simp
    moreover from le Inr Cons.prems(2)
    have "listEntries w config cl entries (Users @ [u]) st1 = (Inr Users', st')" by simp
    then have "length (requests st') = length (requests st1) + length entries"
      using Cons.IH Cons.prems(1) by blast
    ultimately show ?thesis by simp
  qed
qed

text \<open>
  C5, as amended. With the flag \<^verbatim>\<open>min\<close> set: an entry that has a value for the
  configured identity attribute has exactly one request appended to those of the
  connection, the fallback request for its first value, whatever follows; a listing that
  completes has carried exactly one fallback request per entry; and the group list of a
  member is computed from the \<open>memberOf\<close> values of the last entry of the fallback
  result when that result has an entry, and from the primary entry's own \<open>memberOf\<close>
  values when it has none.
\<close>

theorem fallback_search_per_entry:
  assumes "minPtr cl \<noteq> []"
  shows "(GetAttributeValues entry (UserAttribute config) = v # vs \<longrightarrow>
            snd (listEntry w config cl entry st)
              = st\<lparr>requests := requests st @ [userSearchRequest config v]\<rparr>) \<and>
         (listEntries w config cl entries Users st = (Inr Users', st') \<longrightarrow>
            length (requests st') = length (requests st) + length entries) \<and>
         (listEntry w config cl entry st = (Inr u, st1) \<longrightarrow>
            (\<exists>v vs userEntries.
               GetAttributeValues entry (UserAttribute config) = v # vs \<and>
               directory w (length (requests st)) (userSearchRequest config v) = Inr userEntries \<and>
               st1 = st\<lparr>requests := requests st @ [userSearchRequest config v]\<rparr> \<and>
               memberOfList cl (if userEntries = [] then GetAttributeValues entry ''memberOf''
                                else GetAttributeValues (last userEntries) ''memberOf'')
                 = Inr (MemberOf u)))"
proof (intro conjI impI)
  assume "GetAttributeValues entry (UserAttribute config) = v # vs"
  with assms show "snd (listEntry w config cl entry st)
              = st\<lparr>requests := requests st @ [userSearchRequest config v]\<rparr>"
    by (rule listEntry_requests)
next
  assume "listEntries w config cl entries Users st = (Inr Users', st')"
  with assms show "length (requests st') = length (requests st) + length entries"
    by (rule listEntries_min_requests)
next
  assume "listEntry w config cl entry st = (Inr u, st1)"
  with assms show "\<exists>v vs userEntries.
               GetAttributeValues entry (UserAttribute config) = v # vs \<and>
               directory w (length (requests st)) (userSearchRequest config v) = Inr userEntries \<and>
               st1 = st\<lparr>requests := requests st @ [userSearchRequest config v]\<rparr> \<and>
               memberOfList cl (if userEntries = [] then GetAttributeValues entry ''memberOf''
                                else GetAttributeValues (last userEntries) ''memberOf'')
                 = Inr (MemberOf u)"
    by (rule listEntry_min_Inr)
qed

theorem fallback_search_per_entry_witness:
  "minPtr (groupLookup ''admins'' ''1'') \<noteq> [] \<and>
   GetAttributeValues aliceMin (UserAttribute exampleConfig) = [''alice''] \<and>
   snd (listEntry (exampleWorld twoAdminsMin) exampleConfig (groupLookup ''admins'' ''1'') aliceMin
          (afterSearch exampleConfig (groupLookup ''admins'' ''1'')))
     = (afterSearch exampleConfig (groupLookup ''admins'' ''1''))
         \<lparr>requests := requests (afterSearch exampleConfig (groupLookup ''admins'' ''1''))
            @ [userSearchRequest exampleConfig ''alice'']\<rparr> \<and>
   fst (listEntries (exampleWorld twoAdminsMin) exampleConfig (groupLookup ''admins'' ''1'')
          [aliceMin, bobMin] [] (afterSearch exampleConfig (groupLookup ''admins'' ''1'')))
     = Inr [\<lparr>Uid = ''alice'', UidNumber = [], GidNumber = [], MemberOf = [''admins'', ''ops''],
               HomeDirectory = [], Shell = []\<rparr>,
            \<lparr>Uid = ''bob'', UidNumber = [], GidNumber = [], MemberOf = [''admins'', ''ops''],
               HomeDirectory = [], Shell = []\<rparr>] \<and>
   length (requests (snd (listEntries (exampleWorld twoAdminsMin) exampleConfig
       (groupLookup ''admins'' ''1'') [aliceMin, bobMin] []
       (afterSearch exampleConfig (groupLookup ''admins'' ''1'')))))
     = length (requests (afterSearch exampleConfig (groupLookup ''admins'' ''1'')))
       + length [aliceMin, bobMin] \<and>
   GetAttributeValues aliceMin ''memberOf'' = []"
proof -
  let ?w = "exampleWorld twoAdminsMin" and ?cl = "groupLookup ''admins'' ''1''"
  let ?st = "afterSearch exampleConfig ?cl"
  let ?a = "\<lparr>Uid = ''alice'', UidNumber = [], GidNumber = [], MemberOf = [''admins'', ''ops''],
               HomeDirectory = [], Shell = []\<rparr>"
  let ?b = "\<lparr>Uid = ''bob'', UidNumber = [], GidNumber = [], MemberOf = [''admins'', ''ops''],
               HomeDirectory = [], Shell = []\<rparr>"
  have m: "minPtr ?cl \<noteq> []" by (simp add: groupLookup_def)
  have g: "GetAttributeValues aliceMin (UserAttribute exampleConfig) = [''alice'']"
    by (simp add: GetAttributeValues_def aliceMin_def exampleConfig_def)
  have o: "GetAttributeValues aliceMin ''memberOf'' = []"
    by (simp add: GetAttributeValues_def aliceMin_def)
  have l: "fst (listEntries ?w exampleConfig ?cl [aliceMin, bobMin] [] ?st) = Inr [?a, ?b]"
    by code_simp
  then have l': "listEntries ?w exampleConfig ?cl [aliceMin, bobMin] [] ?st
      = (Inr [?a, ?b], snd (listEntries ?w exampleConfig ?cl [aliceMin, bobMin] [] ?st))"
    by (metis prod.collapse)
  note t = fallback_search_per_entry [OF m, where entry = aliceMin and config = exampleConfig
      and v = "''alice''" and vs = "[]" and w = ?w and st = ?st and entries = "[aliceMin, bobMin]"
      and Users = "[]" and Users' = "[?a, ?b]"
      and st' = "snd (listEntries ?w exampleConfig ?cl [aliceMin, bobMin] [] ?st)"]
  from t g have r1: "snd (listEntry ?w exampleConfig ?cl aliceMin ?st)
     = ?st\<lparr>requests := requests ?st @ [userSearchRequest exampleConfig ''alice'']\<rparr>"
    by blast
  from t l' have r2: "length (requests (snd (listEntries ?w exampleConfig ?cl [aliceMin, bobMin]
      [] ?st))) = length (requests ?st) + length [aliceMin, bobMin]"
    by blast
  from m g r1 l r2 o show ?thesis by blast
qed

text \<open>
  C5 as stated fails. With the flag set, a primary entry that carries a membership of
  \<open>staff\<close> and a fallback search that returns no entry give the member the group
  \<open>staff\<close>, taken from the primary entry's own values. And with an identity attribute
  that the entries do not carry, the listing of two entries ends in a panic with no
  fallback request sent for either.
\<close>

theorem fallback_without_entries_keeps_own_values:
  "minPtr (groupLookup ''admins'' ''1'') \<noteq> [] \<and>
   directory (exampleWorld carolThenNothing)
       (length (requests (afterSearch exampleConfig (groupLookup ''admins'' ''1''))))
       (userSearchRequest exampleConfig ''carol'') = Inr [] \<and>
   GetAttributeValues carol ''memberOf'' = [''cn=staff,ou=groups,dc=example,dc=com''] \<and>
   fst (listEntry (exampleWorld carolThenNothing) exampleConfig (groupLookup ''admins'' ''1'')
          carol (afterSearch exampleConfig (groupLookup ''admins'' ''1'')))
     = Inr \<lparr>Uid = ''carol'', UidNumber = [], GidNumber = [], MemberOf = [''staff''],
             HomeDirectory = [], Shell = []\<rparr> \<and>
   main (exampleWorld carolThenNothing) exampleConfig (groupLookup ''admins'' ''1'')
     = (Inr (),
        \<lparr>requests = [searchRequest exampleConfig (groupLookup ''admins'' ''1'') True [],
                      userSearchRequest exampleConfig ''carol''],
         established = True, deferred = True, closed = True, stdout = [''carol:staff ;'']\<rparr>) \<and>
   listEntries (exampleWorld twoAdminsMin) mailConfig (groupLookup ''admins'' ''1'')
       [aliceMin, bobMin] [] (afterSearch mailConfig (groupLookup ''admins'' ''1''))
     = (Inl Panic, afterSearch mailConfig (groupLookup ''admins'' ''1''))"
proof -
  let ?w = "exampleWorld carolThenNothing" and ?cl = "groupLookup ''admins'' ''1''"
  have z: "listEntries (exampleWorld twoAdminsMin) mailConfig ?cl [aliceMin, bobMin] []
      (afterSearch mailConfig ?cl) = (Inl Panic, afterSearch mailConfig ?cl)"
    by code_simp
  have m: "minPtr ?cl \<noteq> []" by (simp add: groupLookup_def)
  have d: "directory ?w (length (requests (afterSearch exampleConfig ?cl)))
       (userSearchRequest exampleConfig ''carol'') = Inr []"
    by (simp add: exampleWorld_def carolThenNothing_def afterSearch_def proc0_def)
  have g: "GetAttributeValues carol ''memberOf'' = [''cn=staff,ou=groups,dc=example,dc=com'']"
    by (simp add: GetAttributeValues_def carol_def)
  have e: "fst (listEntry ?w exampleConfig ?cl carol (afterSearch exampleConfig ?cl))
     = Inr \<lparr>Uid = ''carol'', UidNumber = [], GidNumber = [], MemberOf = [''staff''],
             HomeDirectory = [], Shell = []\<rparr>"
    by code_simp
  have r: "main ?w exampleConfig ?cl
     = (Inr (),
        \<lparr>requests = [searchRequest exampleConfig ?cl True [],
                      userSearchRequest exampleConfig ''carol''],
         established = True, deferred = True, closed = True, stdout = [''carol:staff ;'']\<rparr>)"
    by code_simp
  from m d g e r z show ?thesis by blast
qed

subsection \<open>The attributes read by the normalization\<close>

lemma listEntry_no_min:
  "minPtr cl = [] \<Longrightarrow> listEntry w config' cl entry st = listEntry w config cl entry st"
  by (simp add: listEntry_def rawMemberOf_def)

lemma listEntry_Uid:
  "listEntry w config cl entry st = (Inr u, st') \<Longrightarrow> entryUsername entry = Some (Uid u)"
  by (auto simp: listEntry_def split: prod.splits sum.splits option.splits)

lemma entryUsername_uid_only:
  "map_of entry ''uid'' = map_of entry' ''uid'' \<Longrightarrow> entryUsername entry = entryUsername entry'"
  by (simp add: entryUsername_def GetAttributeValue_def GetAttributeValues_def)

lemma listEntry_memberOf_only:
  assumes "minPtr cl = []"
    and "map_of entry ''memberOf'' = map_of entry' ''memberOf''"
    and "listEntry w config cl entry st = (Inr u, st1)"
    and "listEntry w' config' cl entry' st' = (Inr u', st1')"
  shows "MemberOf u = MemberOf u'"
proof -
  from assms(2) have g: "GetAttributeValues entry ''memberOf'' = GetAttributeValues entry' ''memberOf''"
    by (simp add: GetAttributeValues_def)
  from assms(1,3) have "memberOfList cl (GetAttributeValues entry ''memberOf'') = Inr (MemberOf u)"
    by (auto simp: listEntry_def rawMemberOf_def split: sum.splits option.splits)
  moreover from assms(1,4)
  have "memberOfList cl (GetAttributeValues entry' ''memberOf'') = Inr (MemberOf u')"
    by (auto simp: listEntry_def rawMemberOf_def split: sum.splits option.splits)
  ultimately show ?thesis using g by simp
qed

lemma listEntry_no_min_Inr:
  "minPtr cl = [] \<Longrightarrow> listEntry w config cl entry st = (Inr u, st1) \<Longrightarrow>
   st1 = st \<and> memberOfList cl (GetAttributeValues entry ''memberOf'') = Inr (MemberOf u)"
  by (auto simp: listEntry_def rawMemberOf_def split: sum.splits option.splits)

lemma listEntry_same_answer:
  assumes "minPtr cl \<noteq> []"
    and "GetAttributeValues entry (UserAttribute config) = v # vs"
    and "GetAttributeValues entry (UserAttribute config') = v' # vs'"
    and "directory w (length (requests st)) (userSearchRequest config v)
       = directory w (length (requests st)) (userSearchRequest config' v')"
  shows "fst (listEntry w config cl entry st) = fst (listEntry w config' cl entry st)"
proof (cases "directory w (length (requests st)) (userSearchRequest config v)")
  case (Inl err)
  with assms(4) have d': "directory w (length (requests st)) (userSearchRequest config' v') = Inl err"
    by simp
  from assms(1,2) Inl
  have "fst (listEntry w config cl entry st) = Inl (Fatal (UserSearchError err))"
    by (simp add: listEntry_def rawMemberOf_def Search_def)
  moreover from assms(1,3) d'
  have "fst (listEntry w config' cl entry st) = Inl (Fatal (UserSearchError err))"
    by (simp add: listEntry_def rawMemberOf_def Search_def)
  ultimately show ?thesis by simp
next
  case (Inr userEntries)
  with assms(4) have d': "directory w (length (requests st)) (userSearchRequest config' v') = Inr userEntries"
    by simp
  let ?raws = "fold (\<lambda>userEntry _. GetAttributeValues userEntry ''memberOf'') userEntries
      (GetAttributeValues entry ''memberOf'')"
  from assms(1,2) Inr
  have r: "rawMemberOf w config cl entry st
      = (Inr ?raws, st\<lparr>requests := requests st @ [userSearchRequest config v]\<rparr>)"
    by (simp add: rawMemberOf_def Search_def)
  from assms(1,3) d'
  have r': "rawMemberOf w config' cl entry st
      = (Inr ?raws, st\<lparr>requests := requests st @ [userSearchRequest config' v']\<rparr>)"
    by (simp add: rawMemberOf_def Search_def)
  show ?thesis
    unfolding listEntry_def r r'
    by (simp split: sum.splits option.splits)
qed

text \<open>
  C10. Without the flag \<^verbatim>\<open>min\<close> the configuration has no influence at all on the
  member record of an entry, no request is sent, and the group list is computed from the
  entry's values of the literal attribute \<open>memberOf\<close>, so that entries that agree on
  \<open>memberOf\<close> get the same list. With the flag, the group list is computed from the
  \<open>memberOf\<close> values of the last entry of the answer to the fallback request, or of
  the entry itself when that answer has no entry; the configured identity attribute enters
  through that request alone: two configurations whose fallback requests are answered
  alike give the same outcome for the entry. In every case the identity emitted is the
  normalization of the entry's \<open>uid\<close>, the same under any configuration, environment
  and command line, and depends on no other attribute of the entry.
\<close>

theorem normalization_attributes_fixed:
  "(minPtr cl = [] \<longrightarrow> listEntry w config' cl entry st = listEntry w config cl entry st) \<and>
   (listEntry w config cl entry st = (Inr u, st1) \<longrightarrow> entryUsername entry = Some (Uid u)) \<and>
   (minPtr cl = [] \<and> listEntry w config cl entry st = (Inr u, st1) \<longrightarrow>
      st1 = st \<and> memberOfList cl (GetAttributeValues entry ''memberOf'') = Inr (MemberOf u)) \<and>
   (minPtr cl \<noteq> [] \<and> listEntry w config cl entry st = (Inr u, st1) \<longrightarrow>
      (\<exists>x xs userEntries.
         GetAttributeValues entry (UserAttribute config) = x # xs \<and>
         directory w (length (requests st)) (userSearchRequest config x) = Inr userEntries \<and>
         st1 = st\<lparr>requests := requests st @ [userSearchRequest config x]\<rparr> \<and>
         memberOfList cl (if userEntries = [] then GetAttributeValues entry ''memberOf''
                          else GetAttributeValues (last userEntries) ''memberOf'')
           = Inr (MemberOf u))) \<and>
   (minPtr cl \<noteq> [] \<and>
    GetAttributeValues entry (UserAttribute config) = v # vs \<and>
    GetAttributeValues entry (UserAttribute config') = v' # vs' \<and>
    directory w (length (requests st)) (userSearchRequest config v)
      = directory w (length (requests st)) (userSearchRequest config' v') \<longrightarrow>
      fst (listEntry w config cl entry st) = fst (listEntry w config' cl entry st)) \<and>
   (listEntry w config cl entry st = (Inr u, st1) \<and>
    listEntry w' config' cl' entry st' = (Inr u', st1') \<longrightarrow> Uid u = Uid u') \<and>
   (map_of entry ''uid'' = map_of entry' ''uid'' \<longrightarrow> entryUsername entry = entryUsername entry') \<and>
   (minPtr cl = [] \<and> map_of entry ''memberOf'' = map_of entry' ''memberOf'' \<and>
    listEntry w config cl entry st = (Inr u, st1) \<and>
    listEntry w' config' cl entry' st' = (Inr u', st1') \<longrightarrow> MemberOf u = MemberOf u')"
proof (intro conjI impI)
  assume "minPtr cl = []"
  then show "listEntry w config' cl entry st = listEntry w config cl entry st"
    by (rule listEntry_no_min)
next
  assume "listEntry w config cl entry st = (Inr u, st1)"
  then show "entryUsername entry = Some (Uid u)" by (rule listEntry_Uid)
next
  assume a: "minPtr cl = [] \<and> listEntry w config cl entry st = (Inr u, st1)"
  then show "st1 = st" using listEntry_no_min_Inr by blast
  from a show "memberOfList cl (GetAttributeValues entry ''memberOf'') = Inr (MemberOf u)"
    using listEntry_no_min_Inr by blast
next
  assume "minPtr cl \<noteq> [] \<and> listEntry w config cl entry st = (Inr u, st1)"
  then show "\<exists>x xs userEntries.
         GetAttributeValues entry (UserAttribute config) = x # xs \<and>
         directory w (length (requests st)) (userSearchRequest config x) = Inr userEntries \<and>
         st1 = st\<lparr>requests := requests st @ [userSearchRequest config x]\<rparr> \<and>
         memberOfList cl (if userEntries = [] then GetAttributeValues entry ''memberOf''
                          else GetAttributeValues (last userEntries) ''memberOf'')
           = Inr (MemberOf u)"
    using listEntry_min_Inr by blast
next
  assume "minPtr cl \<noteq> [] \<and>
    GetAttributeValues entry (UserAttribute config) = v # vs \<and>
    GetAttributeValues entry (UserAttribute config') = v' # vs' \<and>
    directory w (length (requests st)) (userSearchRequest config v)
      = directory w (length (requests st)) (userSearchRequest config' v')"
  then show "fst (listEntry w config cl entry st) = fst (listEntry w config' cl entry st)"
    using listEntry_same_answer by blast
next
  assume "listEntry w config cl entry st = (Inr u, st1) \<and>
    listEntry w' config' cl' entry st' = (Inr u', st1')"
  then have "entryUsername entry = Some (Uid u)" "entryUsername entry = Some (Uid u')"
    using listEntry_Uid by blast+
  then show "Uid u = Uid u'" by simp
next
  assume "map_of entry ''uid'' = map_of entry' ''uid''"
  then show "entryUsername entry = entryUsername entry'" by (rule entryUsername_uid_only)
next
  assume "minPtr cl = [] \<and> map_of entry ''memberOf'' = map_of entry' ''memberOf'' \<and>
    listEntry w config cl entry st = (Inr u, st1) \<and>
    listEntry w' config' cl entry' st' = (Inr u', st1')"
  then show "MemberOf u = MemberOf u'" using listEntry_memberOf_only by blast
qed

theorem normalization_attributes_fixed_witness:
  "minPtr (groupLookup ''admins'' []) = [] \<and>
   listEntry (exampleWorld twoAdmins) exampleConfig (groupLookup ''admins'' []) carol proc0
     = (Inr \<lparr>Uid = ''carol'', UidNumber = [], GidNumber = [], MemberOf = [''staff''],
              HomeDirectory = [], Shell = []\<rparr>, proc0) \<and>
   listEntry (exampleWorld twoAdmins) mailConfig (groupLookup ''admins'' []) carol proc0
     = listEntry (exampleWorld twoAdmins) exampleConfig (groupLookup ''admins'' []) carol proc0 \<and>
   entryUsername carol = Some ''carol'' \<and>
   memberOfList (groupLookup ''admins'' []) (GetAttributeValues carol ''memberOf'')
     = Inr [''staff''] \<and>
   map_of bob ''uid'' = map_of bobMin ''uid'' \<and>
   entryUsername bob = entryUsername bobMin \<and>
   minPtr (groupLookup ''admins'' ''1'') \<noteq> [] \<and>
   GetAttributeValues dave (UserAttribute exampleConfig) = [''dave''] \<and>
   GetAttributeValues dave (UserAttribute mailConfig) = [''dave@example.com''] \<and>
   reqFilter (userSearchRequest exampleConfig ''dave'') = ''(uid=dave)'' \<and>
   reqFilter (userSearchRequest mailConfig ''dave@example.com'') = ''(mail=dave@example.com)'' \<and>
   directory (exampleWorld twoAdminsMin)
       (length (requests (afterSearch exampleConfig (groupLookup ''admins'' ''1''))))
       (userSearchRequest exampleConfig ''dave'') = Inr [memberships] \<and>
   directory (exampleWorld twoAdminsMin)
       (length (requests (afterSearch exampleConfig (groupLookup ''admins'' ''1''))))
       (userSearchRequest mailConfig ''dave@example.com'') = Inr [memberships] \<and>
   listEntry (exampleWorld twoAdminsMin) exampleConfig (groupLookup ''admins'' ''1'') dave
       (afterSearch exampleConfig (groupLookup ''admins'' ''1''))
     = (Inr \<lparr>Uid = ''dave'', UidNumber = [], GidNumber = [], MemberOf = [''admins'', ''ops''],
              HomeDirectory = [], Shell = []\<rparr>,
        (afterSearch exampleConfig (groupLookup ''admins'' ''1''))
          \<lparr>requests := requests (afterSearch exampleConfig (groupLookup ''admins'' ''1''))
             @ [userSearchRequest exampleConfig ''dave'']\<rparr>) \<and>
   memberOfList (groupLookup ''admins'' ''1'') (GetAttributeValues memberships ''memberOf'')
     = Inr [''admins'', ''ops''] \<and>
   fst (listEntry (exampleWorld twoAdminsMin) exampleConfig (groupLookup ''admins'' ''1'') dave
         (afterSearch exampleConfig (groupLookup ''admins'' ''1'')))
     = fst (listEntry (exampleWorld twoAdminsMin) mailConfig (groupLookup ''admins'' ''1'') dave
         (afterSearch exampleConfig (groupLookup ''admins'' ''1'')))"
proof -
  let ?w = "exampleWorld twoAdmins" and ?cl = "groupLookup ''admins'' []"
  let ?w' = "exampleWorld twoAdminsMin" and ?cl' = "groupLookup ''admins'' ''1''"
  let ?st = "afterSearch exampleConfig ?cl'"
  let ?st1 = "?st\<lparr>requests := requests ?st @ [userSearchRequest exampleConfig ''dave'']\<rparr>"
  let ?c = "\<lparr>Uid = ''carol'', UidNumber = [], GidNumber = [], MemberOf = [''staff''],
              HomeDirectory = [], Shell = []\<rparr>"
  let ?d = "\<lparr>Uid = ''dave'', UidNumber = [], GidNumber = [], MemberOf = [''admins'', ''ops''],
              HomeDirectory = [], Shell = []\<rparr>"
  have m: "minPtr ?cl = []" by (simp add: groupLookup_def)
  have e: "listEntry ?w exampleConfig ?cl carol proc0 = (Inr ?c, proc0)" by code_simp
  have u: "map_of bob ''uid'' = map_of bobMin ''uid''" by (simp add: bob_def bobMin_def)
  have m': "minPtr ?cl' \<noteq> []" by (simp add: groupLookup_def)
  have g: "GetAttributeValues dave (UserAttribute exampleConfig) = [''dave'']"
    by (simp add: GetAttributeValues_def dave_def exampleConfig_def)
  have g': "GetAttributeValues dave (UserAttribute mailConfig) = [''dave@example.com'']"
    by (simp add: GetAttributeValues_def dave_def mailConfig_def)
  have f: "reqFilter (userSearchRequest exampleConfig ''dave'') = ''(uid=dave)''"
    by (simp add: userSearchRequest_def exampleConfig_def)
  have f': "reqFilter (userSearchRequest mailConfig ''dave@example.com'')
      = ''(mail=dave@example.com)''"
    by (simp add: userSearchRequest_def mailConfig_def)
  have d: "directory ?w' (length (requests ?st)) (userSearchRequest exampleConfig ''dave'')
      = Inr [memberships]"
    by (simp add: exampleWorld_def twoAdminsMin_def afterSearch_def proc0_def)
  have d': "directory ?w' (length (requests ?st))
      (userSearchRequest mailConfig ''dave@example.com'') = Inr [memberships]"
    by (simp add: exampleWorld_def twoAdminsMin_def afterSearch_def proc0_def)
  have e': "listEntry ?w' exampleConfig ?cl' dave ?st = (Inr ?d, ?st1)" by code_simp
  note t1 = normalization_attributes_fixed [where cl = ?cl and w = ?w and config' = mailConfig
      and entry = carol and st = proc0 and config = exampleConfig and u = ?c and ?st1.0 = proc0]
  note t2 = normalization_attributes_fixed [where entry = bob and entry' = bobMin]
  note t3 = normalization_attributes_fixed [where cl = ?cl' and w = ?w' and config' = mailConfig
      and entry = dave and st = ?st and config = exampleConfig and u = ?d and ?st1.0 = ?st1
      and v = "''dave''" and vs = "[]" and v' = "''dave@example.com''" and vs' = "[]"]
  from t1 m have r1: "listEntry ?w mailConfig ?cl carol proc0
      = listEntry ?w exampleConfig ?cl carol proc0"
    by blast
  from t1 e have "entryUsername carol = Some (Uid ?c)" by blast
  then have r2: "entryUsername carol = Some ''carol''" by simp
  from t1 m e have "memberOfList ?cl (GetAttributeValues carol ''memberOf'') = Inr (MemberOf ?c)"
    by blast
  then have r3: "memberOfList ?cl (GetAttributeValues carol ''memberOf'') = Inr [''staff'']"
    by simp
  from t2 u have r4: "entryUsername bob = entryUsername bobMin" by blast
  from t3 m' e' obtain x xs userEntries where
    x: "GetAttributeValues dave (UserAttribute exampleConfig) = x # xs" and
    a: "directory ?w' (length (requests ?st)) (userSearchRequest exampleConfig x) = Inr userEntries" and
    l: "memberOfList ?cl' (if userEntries = [] then GetAttributeValues dave ''memberOf''
                          else GetAttributeValues (last userEntries) ''memberOf'')
           = Inr (MemberOf ?d)"
    by blast
  from x g have "x = ''dave''" by simp
  with a d have "userEntries = [memberships]" by simp
  with l have r5: "memberOfList ?cl' (GetAttributeValues memberships ''memberOf'')
      = Inr [''admins'', ''ops'']"
    by simp
  from t3 m' g g' d d'
  have r6: "fst (listEntry ?w' exampleConfig ?cl' dave ?st)
      = fst (listEntry ?w' mailConfig ?cl' dave ?st)"
    by simp
  from m e r1 r2 r3 u r4 m' g g' f f' d d' e' r5 r6 show ?thesis by blast
qed

subsection \<open>Closing the connection\<close>

text \<open>
  C7. The connection is established and \<^verbatim>\<open>l.Close\<close> is deferred, the search for
  \<open>bob\<close> returns no entry, and the process ends through \<^verbatim>\<open>log.Fatalf\<close> without
  \<^verbatim>\<open>l.Close\<close> having been called. The two lemmas after it give the general picture:
  no fatal exit closes the connection, while a return from \<^verbatim>\<open>main\<close> and a panic do.
\<close>

theorem close_skipped_on_fatal_exit:
  "main (exampleWorld nobody) exampleConfig (userLookup ''bob'')
     = (Inl (Fatal NoEntries),
        \<lparr>requests = [\<lparr>reqBaseDN = ''dc=example,dc=com'', reqFilter = ''(uid=bob)'',
                       reqAttributes = [''sshPublicKey'']\<rparr>],
         established = True, deferred = True, closed = False, stdout = []\<rparr>)"
  by code_simp

lemma listEntry_flags:
  "established (snd (listEntry w config cl entry st)) = established st \<and>
   deferred (snd (listEntry w config cl entry st)) = deferred st \<and>
   closed (snd (listEntry w config cl entry st)) = closed st"
  by (auto simp: listEntry_def rawMemberOf_def Let_def Search_def
      split: prod.splits sum.splits option.splits list.splits if_splits)

lemma listEntries_flags:
  "established (snd (listEntries w config cl entries Users st)) = established st \<and>
   deferred (snd (listEntries w config cl entries Users st)) = deferred st \<and>
   closed (snd (listEntries w config cl entries Users st)) = closed st"
proof (induction entries arbitrary: Users st)
  case Nil
  then show ?case by simp
next
  case (Cons entry entries)
  obtain r st1 where le: "listEntry w config cl entry st = (r, st1)"
    by (cases "listEntry w config cl entry st")
  then have f: "established st1 = established st \<and> deferred st1 = deferred st \<and>
      closed st1 = closed st"
    using listEntry_flags [of w config cl entry st] by simp
  show ?case
  proof (cases r)
    case (Inl e)
    with le f show ?thesis by simp
  next
    case (Inr u)
    with le f Cons.IH [of "Users @ [u]" st1] show ?thesis by simp
  qed
qed

lemma lookup_flags:
  "established (snd (lookup w config cl listUsers username st)) = established st \<and>
   deferred (snd (lookup w config cl listUsers username st)) = deferred st \<and>
   closed (snd (lookup w config cl listUsers username st)) = closed st"
proof -
  let ?st1 = "st\<lparr>requests := requests st @ [searchRequest config cl listUsers username]\<rparr>"
  show ?thesis
  proof (cases "directory w (length (requests st)) (searchRequest config cl listUsers username)")
    case (Inl err)
    then show ?thesis by (simp add: lookup_def Search_def)
  next
    case (Inr entries)
    obtain r st2 where le: "listEntries w config cl entries [] ?st1 = (r, st2)"
      by (cases "listEntries w config cl entries [] ?st1")
    then have f: "established st2 = established st \<and> deferred st2 = deferred st \<and>
        closed st2 = closed st"
      using listEntries_flags [of w config cl entries "[]" ?st1] by simp
    from Inr le f show ?thesis
      by (auto simp: lookup_def Search_def printKeys_def split: sum.splits)
  qed
qed

lemma connect_flags:
  "closed (snd (connect w config st)) = closed st \<and>
   (deferred st = established st \<longrightarrow>
      deferred (snd (connect w config st)) = established (snd (connect w config st)))"
  by (auto simp: connect_def Let_def split: option.splits sum.splits)

lemma mainBody_flags:
  "closed (snd (mainBody w config cl proc0)) = False \<and>
   deferred (snd (mainBody w config cl proc0)) = established (snd (mainBody w config cl proc0))"
proof (cases "parseMode config cl")
  case (Inl f)
  then show ?thesis by (simp add: mainBody_def proc0_def)
next
  case (Inr p)
  obtain listUsers username where p: "p = (listUsers, username)" by (cases p)
  obtain r st1 where c: "connect w config proc0 = (r, st1)" by (cases "connect w config proc0")
  then have f: "closed st1 = False \<and> deferred st1 = established st1"
    using connect_flags [of w config proc0] by (simp add: proc0_def)
  show ?thesis
  proof (cases r)
    case (Inl e)
    with Inr p c f show ?thesis by (simp add: mainBody_def)
  next
    case (Inr u)
    with \<open>parseMode config cl = Inr p\<close> p c f
      lookup_flags [of w config cl listUsers username st1]
    show ?thesis by (simp add: mainBody_def)
  qed
qed

lemma main_fatal_never_closes:
  "fst (main w config cl) = Inl (Fatal f) \<Longrightarrow> closed (snd (main w config cl)) = False"
  using mainBody_flags [of w config cl]
  by (cases "mainBody w config cl proc0")
     (auto simp: main_def exitProcess_def split: sum.splits failure.splits)

lemma main_otherwise_closes:
  "fst (main w config cl) = Inr () \<or> fst (main w config cl) = Inl Panic \<Longrightarrow>
   established (snd (main w config cl)) \<Longrightarrow> closed (snd (main w config cl))"
  using mainBody_flags [of w config cl]
  by (cases "mainBody w config cl proc0")
     (auto simp: main_def exitProcess_def runDeferred_def split: sum.splits failure.splits)

end
